theory Spec2Isabelle
  imports Complex_Main "HOL-Library.Sublist"
begin

section \<open>Values and errors\<close>

text \<open>
  Values that the hook only carries around (attributes of an event it never reads, rrweb
  records, index rows, the router location) are JSON values. A thrown value is an
  \<open>error\<close>; a computation that may throw returns \<open>error + 'a\<close> with \<open>Inl\<close> the thrown
  value.
\<close>

datatype json =
    JNull
  | JBool bool
  | JNum real
  | JStr string
  | JArr "json list"
  | JObj "(string \<times> json) list"

datatype error =
    RequestError string
  | SyntaxError string
  | TypeError string

section \<open>The event types\<close>

text \<open>
  Modelled from the spec: the declarations of \<open>EntryType\<close>, \<open>Entry\<close>, \<open>Event\<close>
  (sentry/types/event) and of the span record are not among the sources. The spec gives an
  event an ordered entry list, each entry typed by a discriminant (spans, breadcrumbs, ...),
  a spans entry holding a sequence of span records, and a span a timestamp. An \<open>Event\<close>
  is kept as the three attributes that \<open>loadEvents\<close> writes (\<open>entries\<close>,
  \<open>breakdowns\<close>, \<open>endTimestamp\<close>) and \<open>rest\<close>, all its other own attributes
  by name. An absent (undefined) attribute is \<open>None\<close>; \<open>null\<close> is \<open>Some JNull\<close>.
\<close>

datatype EntryType = SPANS | BREADCRUMBS | OTHER string

record RawSpanType =
  span_id :: string
  timestamp :: real

record Entry =
  type :: EntryType
  data :: "RawSpanType list"

record Event =
  entries :: "Entry list"
  breakdowns :: "json option"
  endTimestamp :: "real option"
  rest :: "(string \<times> json) list"

section \<open>useReplayEvent.tsx: isReplayEventEntity\<close>

definition isReplayEventEntity :: "Entry \<Rightarrow> bool" where
  "isReplayEventEntity entry =
     (case type entry of
        SPANS \<Rightarrow> True
      | _ \<Rightarrow> False)"

section \<open>Array methods\<close>

text \<open>
  \<open>Array.prototype.find\<close> is \<open>List.find\<close>: the first element satisfying the
  predicate, or undefined (\<open>None\<close>). \<open>flatMap\<close> calls the callback on the elements in
  order and concatenates the arrays it returns; a callback that throws ends it there.
\<close>

fun flatMap :: "('a \<Rightarrow> error + 'b list) \<Rightarrow> 'a list \<Rightarrow> error + 'b list" where
  "flatMap f [] = Inr []"
| "flatMap f (x # xs) =
     (case f x of
        Inl e \<Rightarrow> Inl e
      | Inr ys \<Rightarrow>
          (case flatMap f xs of
             Inl e \<Rightarrow> Inl e
           | Inr zs \<Rightarrow> Inr (ys @ zs)))"

section \<open>loadEvents: the merge of the related events\<close>

text \<open>
  The callback of line 170, \<open>replayEvent.entries.find(isReplayEventEntity).data\<close>:
  reading \<open>data\<close> of undefined throws a TypeError.
\<close>

definition replayEvent_spans :: "Event \<Rightarrow> error + RawSpanType list" where
  "replayEvent_spans replayEvent =
     (case find isReplayEventEntity (entries replayEvent) of
        None \<Rightarrow> Inl (TypeError ''Cannot read properties of undefined (reading 'data')'')
      | Some entry \<Rightarrow> Inr (data entry))"

text \<open>Lines 169 to 171: the constant \<open>spans\<close>.\<close>

definition loadEvents_spans :: "Event list \<Rightarrow> error + RawSpanType list" where
  "loadEvents_spans replayEvents = flatMap replayEvent_spans replayEvents"

text \<open>
  \<open>spans[spans.length - 1]?.timestamp\<close>: on the empty array the element read is
  undefined and the optional chain gives undefined.
\<close>

definition last_timestamp :: "RawSpanType list \<Rightarrow> real option" where
  "last_timestamp spans =
     (case spans of
        [] \<Rightarrow> None
      | _ # _ \<Rightarrow> Some (timestamp (last spans)))"

text \<open>
  Lines 175 to 181: the object literal. Spreading \<open>replayEvents[0]\<close> copies the own
  attributes of the first related event; when the array is empty the element is undefined,
  and spreading undefined copies nothing and does not throw. The three attributes written
  after the spread override what it copied.
\<close>

definition loadEvents_mergedReplayEvent :: "Event list \<Rightarrow> RawSpanType list \<Rightarrow> Event" where
  "loadEvents_mergedReplayEvent replayEvents spans =
     (case replayEvents of
        [] \<Rightarrow>
          \<lparr>entries = [\<lparr>type = SPANS, data = spans\<rparr>],
           breakdowns = Some JNull,
           endTimestamp = last_timestamp spans,
           rest = []\<rparr>
      | first # _ \<Rightarrow>
          first\<lparr>breakdowns := Some JNull,
                entries := [\<lparr>type = SPANS, data = spans\<rparr>],
                endTimestamp := last_timestamp spans\<rparr>)"

text \<open>Lines 168 to 181 together: the merge step.\<close>

definition loadEvents_merge :: "Event list \<Rightarrow> error + Event" where
  "loadEvents_merge replayEvents =
     (case loadEvents_spans replayEvents of
        Inl e \<Rightarrow> Inl e
      | Inr spans \<Rightarrow> Inr (loadEvents_mergedReplayEvent replayEvents spans))"

text \<open>
  In the spec's words, the entry of a related event that the merge uses: the first of its
  entries tagged as the spans kind. \<open>first_spans_entry ev e\<close> says that \<open>e\<close> is that
  entry of \<open>ev\<close>: it is tagged spans and no entry before it is.
\<close>

abbreviation first_spans_entry :: "Event \<Rightarrow> Entry \<Rightarrow> bool" where
  "first_spans_entry ev e \<equiv>
     (\<exists>pre post. entries ev = pre @ e # post
        \<and> (\<forall>p \<in> set pre. type p \<noteq> SPANS) \<and> type e = SPANS)"

section \<open>useReplayEvent.tsx: isRRWebEventAttachment\<close>

text \<open>
  Modelled from the spec: the declaration of \<open>IssueAttachment\<close> (sentry/types) is not
  among the sources; the spec gives an attachment a name and an identifier. A name is a
  \<open>string\<close>, one \<open>char\<close> for each code unit.
\<close>

record IssueAttachment =
  attachment_id :: string
  name :: string

text \<open>
  The regular expression literal of line 76 uses three kinds of atom: a literal character,
  the class \<open>[0-9]\<close> and the dot, which matches every character but a line terminator
  (line feed and carriage return among the characters of a \<open>string\<close>).
\<close>

datatype atom = Lit char | Digit | AnyChar

fun atom_matches :: "atom \<Rightarrow> char \<Rightarrow> bool" where
  "atom_matches (Lit c) x = (x = c)"
| "atom_matches Digit x = (x \<in> set ''0123456789'')"
| "atom_matches AnyChar x = (x \<noteq> CHR 0x0A \<and> x \<noteq> CHR 0x0D)"

text \<open>The atoms match the characters at the start of the text, one each.\<close>

fun match_here :: "atom list \<Rightarrow> string \<Rightarrow> bool" where
  "match_here [] s = True"
| "match_here (a # as) [] = False"
| "match_here (a # as) (x # xs) = (atom_matches a x \<and> match_here as xs)"

text \<open>
  \<open>RegExp.prototype.test\<close> for an expression without anchors and flags: a match may
  start at any position of the text.
\<close>

fun regex_test :: "atom list \<Rightarrow> string \<Rightarrow> bool" where
  "regex_test r [] = match_here r []"
| "regex_test r (x # xs) = (match_here r (x # xs) \<or> regex_test r xs)"

definition IS_RRWEB_ATTACHMENT_FILENAME :: "atom list" where
  "IS_RRWEB_ATTACHMENT_FILENAME =
     map Lit ''rrweb-'' @ replicate 13 Digit @ [AnyChar] @ map Lit ''json''"

definition isRRWebEventAttachment :: "IssueAttachment \<Rightarrow> bool" where
  "isRRWebEventAttachment attachment =
     regex_test IS_RRWEB_ATTACHMENT_FILENAME (name attachment)"

text \<open>
  The naming convention in the spec's words, \<open>rrweb-<13 digits>.json\<close>: the whole
  name is the text rrweb-, thirteen digits and the text .json.
\<close>

definition spec_rrweb_filename :: "string \<Rightarrow> bool" where
  "spec_rrweb_filename s =
     (length s = 24
      \<and> take 6 s = ''rrweb-''
      \<and> (\<forall>d \<in> set (take 13 (drop 6 s)). d \<in> set ''0123456789'')
      \<and> drop 19 s = ''.json'')"

section \<open>Strings of the hook\<close>

text \<open>
  \<open>String.prototype.split\<close> with a separator of one character: the pieces between
  the occurrences of the separator, so one piece more than there are occurrences. The
  result is never empty, so the first branch of the \<open>case\<close> below is never taken.
\<close>

fun split :: "char \<Rightarrow> string \<Rightarrow> string list" where
  "split sep [] = [[]]"
| "split sep (c # cs) =
     (if c = sep then [] # split sep cs
      else (case split sep cs of
              [] \<Rightarrow> [[c]]
            | piece # pieces \<Rightarrow> (c # piece) # pieces))"

text \<open>
  The array destructuring of line 82 reads the elements 0 and 1; an element past the end
  is undefined. A template literal prints undefined as the text undefined.
\<close>

definition element :: "'a list \<Rightarrow> nat \<Rightarrow> 'a option" where
  "element xs i = (if i < length xs then Some (xs ! i) else None)"

definition projectId :: "string \<Rightarrow> string option" where
  "projectId slug = element (split CHR '':'' slug) 0"

definition eventId :: "string \<Rightarrow> string option" where
  "eventId slug = element (split CHR '':'' slug) 1"

definition template :: "string option \<Rightarrow> string" where
  "template v = (case v of None \<Rightarrow> ''undefined'' | Some s \<Rightarrow> s)"

section \<open>Promises\<close>

text \<open>
  An asynchronous computation is described by the requests it issues, the time at which it
  settles, counted from its start, and its outcome: rejected with an error (\<open>Inl\<close>) or
  fulfilled with a value. The requests of computations that run concurrently are listed
  computation by computation; their order in the list says nothing about time.
\<close>

type_synonym 'a async = "string list \<times> nat \<times> (error + 'a)"

definition requests :: "'a async \<Rightarrow> string list" where
  "requests p = fst p"

definition settled :: "'a async \<Rightarrow> nat" where
  "settled p = fst (snd p)"

definition outcome :: "'a async \<Rightarrow> error + 'a" where
  "outcome p = snd (snd p)"

text \<open>A request: the network answers after some time with an error or a response.\<close>

definition requestPromise :: "(string \<Rightarrow> nat \<times> (error + 'a)) \<Rightarrow> string \<Rightarrow> 'a async" where
  "requestPromise network url = ([url], network url)"

text \<open>
  \<open>await p\<close> followed by the rest of an async function: a rejection of \<open>p\<close> is thrown
  and ends the function; otherwise the rest runs from the time \<open>p\<close> settled.
\<close>

fun await :: "'a async \<Rightarrow> ('a \<Rightarrow> 'b async) \<Rightarrow> 'b async" where
  "await (rs, t, Inl e) k = (rs, t, Inl e)"
| "await (rs, t, Inr v) k = (rs @ requests (k v), t + settled (k v), outcome (k v))"

text \<open>
  Two promises under \<open>Promise.all\<close>: fulfilled with both values once both are
  fulfilled, rejected with the reason of the one that rejects first in time otherwise. When
  both reject at the same time, which rejection reaches \<open>Promise.all\<close> first is decided
  by the order of the microtask queue, which is not described here: \<open>first\<close> says,
  for the two reasons, whether it is the left one.
\<close>

fun both :: "(error \<Rightarrow> error \<Rightarrow> bool) \<Rightarrow> 'a async \<Rightarrow> 'b async \<Rightarrow> ('a \<times> 'b) async" where
  "both first (rs1, t1, Inr v1) (rs2, t2, Inr v2) = (rs1 @ rs2, max t1 t2, Inr (v1, v2))"
| "both first (rs1, t1, Inl e1) (rs2, t2, Inr v2) = (rs1 @ rs2, t1, Inl e1)"
| "both first (rs1, t1, Inr v1) (rs2, t2, Inl e2) = (rs1 @ rs2, t2, Inl e2)"
| "both first (rs1, t1, Inl e1) (rs2, t2, Inl e2) =
     (rs1 @ rs2,
      if t1 < t2 \<or> (t1 = t2 \<and> first e1 e2) then (t1, Inl e1) else (t2, Inl e2))"

text \<open>\<open>Promise.all\<close> of an array of promises of one type.\<close>

fun Promise_all :: "(error \<Rightarrow> error \<Rightarrow> bool) \<Rightarrow> 'a async list \<Rightarrow> 'a list async" where
  "Promise_all first [] = ([], 0, Inr [])"
| "Promise_all first (p # ps) =
     (case both first p (Promise_all first ps) of
        (rs, t, Inl e) \<Rightarrow> (rs, t, Inl e)
      | (rs, t, Inr (v, vs)) \<Rightarrow> (rs, t, Inr (v # vs)))"

section \<open>The collaborators of the hook\<close>

text \<open>
  Modelled from the spec: the API client, \<open>EventView\<close>, \<open>generateEventSlug\<close>,
  \<open>mergeBreadcrumbsEntries\<close> and \<open>JSON.parse\<close> are not among the sources, and are
  parameters here. The network is one function for each endpoint of section 6 of the spec,
  from the URL (and the query, for the index) to the time the answer takes and the answer.
  \<open>parse_events\<close> is \<open>JSON.parse(response).events\<close>, which throws on a malformed
  document. The index answers with the rows of its \<open>data\<close>. \<open>rejects_first\<close> is
  the order of two rejections that arrive at the same time.
\<close>

record EventsQuery =
  q_id :: string
  q_name :: string
  q_version :: nat
  q_fields :: "string list"
  q_orderby :: string
  q_projects :: "string list"
  q_range :: string
  q_query :: string
  q_additionalConditions :: "(string \<times> string option list) list"
  q_location :: json

record env =
  events_endpoint :: "string \<Rightarrow> nat \<times> (error + Event)"
  attachments_endpoint :: "string \<Rightarrow> nat \<times> (error + IssueAttachment list)"
  download_endpoint :: "string \<Rightarrow> nat \<times> (error + string)"
  eventsv2_endpoint :: "string \<Rightarrow> EventsQuery \<Rightarrow> nat \<times> (error + json list)"
  parse_events :: "string \<Rightarrow> error + json list"
  generateEventSlug :: "json \<Rightarrow> string"
  mergeBreadcrumbsEntries :: "Event list \<Rightarrow> error + Entry"
  rejects_first :: "error \<Rightarrow> error \<Rightarrow> bool"

section \<open>useReplayEvent.tsx: the state and the options\<close>

record State =
  breadcrumbEntry :: "Entry option"
  event :: "Event option"
  fetchError :: "error option"
  fetching :: bool
  mergedReplayEvent :: "Event option"
  replayEvents :: "Event list option"
  rrwebEvents :: "json list option"

record Options =
  eventSlug :: string
  location :: json
  orgId :: string

section \<open>useReplayEvent.tsx: the three fetches\<close>

definition fetchEvent :: "env \<Rightarrow> Options \<Rightarrow> Event async" where
  "fetchEvent api opts =
     requestPromise (events_endpoint api)
       (''/organizations/'' @ orgId opts @ ''/events/'' @ eventSlug opts @ ''/'')"

definition attachments_url :: "Options \<Rightarrow> string" where
  "attachments_url opts =
     ''/projects/'' @ orgId opts @ ''/'' @ template (projectId (eventSlug opts))
       @ ''/events/'' @ template (eventId (eventSlug opts)) @ ''/attachments/''"

definition download_url :: "Options \<Rightarrow> IssueAttachment \<Rightarrow> string" where
  "download_url opts attachment =
     ''/api/0/projects/'' @ orgId opts @ ''/'' @ template (projectId (eventSlug opts))
       @ ''/events/'' @ template (eventId (eventSlug opts))
       @ ''/attachments/'' @ attachment_id attachment @ ''/?download''"

text \<open>Line 105: the constant \<open>rrwebAttachmentIds\<close>.\<close>

definition rrwebAttachmentIds :: "IssueAttachment list \<Rightarrow> IssueAttachment list" where
  "rrwebAttachmentIds attachmentIds = filter isRRWebEventAttachment attachmentIds"

text \<open>Lines 107 to 112: the callback that downloads and parses one attachment.\<close>

definition fetchRRWebAttachment :: "env \<Rightarrow> Options \<Rightarrow> IssueAttachment \<Rightarrow> json list async" where
  "fetchRRWebAttachment api opts attachment =
     await (requestPromise (download_endpoint api) (download_url opts attachment))
       (\<lambda>response. ([], 0, parse_events api response))"

definition fetchRRWebEvents :: "env \<Rightarrow> Options \<Rightarrow> json list async" where
  "fetchRRWebEvents api opts =
     await (requestPromise (attachments_endpoint api) (attachments_url opts))
       (\<lambda>attachmentIds.
          await (Promise_all (rejects_first api)
                   (map (fetchRRWebAttachment api opts) (rrwebAttachmentIds attachmentIds)))
            (\<lambda>attachments. ([], 0, Inr (concat attachments))))"

definition replayEventsQuery :: "Options \<Rightarrow> EventsQuery" where
  "replayEventsQuery opts =
     \<lparr>q_id = '''',
      q_name = '''',
      q_version = 2,
      q_fields = [''timestamp'', ''replayId''],
      q_orderby = ''timestamp'',
      q_projects = [],
      q_range = ''14d'',
      q_query = ''transaction:sentry-replay-event'',
      q_additionalConditions = [(''replayId'', [eventId (eventSlug opts)])],
      q_location = location opts\<rparr>"

definition fetchReplayEvents :: "env \<Rightarrow> Options \<Rightarrow> Event list async" where
  "fetchReplayEvents api opts =
     await (([''/organizations/'' @ orgId opts @ ''/eventsv2/''],
             eventsv2_endpoint api (''/organizations/'' @ orgId opts @ ''/eventsv2/'')
               (replayEventsQuery opts)))
       (\<lambda>replayEventList.
          Promise_all (rejects_first api)
            (map (\<lambda>row. requestPromise (events_endpoint api)
                    (''/organizations/'' @ orgId opts @ ''/events/''
                       @ generateEventSlug api row @ ''/''))
               replayEventList))"

section \<open>useReplayEvent.tsx: loadEvents\<close>

text \<open>The two object literals with every data field undefined: lines 149 and 194.\<close>

definition loading_state :: State where
  "loading_state =
     \<lparr>breadcrumbEntry = None,
      event = None,
      fetchError = None,
      fetching = True,
      mergedReplayEvent = None,
      replayEvents = None,
      rrwebEvents = None\<rparr>"

definition catch_state :: "error \<Rightarrow> State" where
  "catch_state error =
     \<lparr>breadcrumbEntry = None,
      event = None,
      fetchError = Some error,
      fetching = False,
      mergedReplayEvent = None,
      replayEvents = None,
      rrwebEvents = None\<rparr>"

text \<open>Lines 160 to 164: the three fetches under \<open>Promise.all\<close>.\<close>

definition loadEvents_fetches :: "env \<Rightarrow> Options \<Rightarrow> (Event \<times> json list \<times> Event list) async" where
  "loadEvents_fetches api opts =
     both (rejects_first api) (fetchEvent api opts)
       (both (rejects_first api) (fetchRRWebEvents api opts) (fetchReplayEvents api opts))"

text \<open>
  Lines 159 to 204: what the try block and its handler pass to \<open>setState\<close>, from the
  outcome of the awaited \<open>Promise.all\<close>. A rejection, and an error thrown by
  \<open>mergeBreadcrumbsEntries\<close> or by the merge step, all end in the handler.
  \<open>state\<close> is the state that the closure of \<open>loadEvents\<close> captured.
\<close>

definition loadEvents_settle ::
  "env \<Rightarrow> State \<Rightarrow> error + Event \<times> json list \<times> Event list \<Rightarrow> State" where
  "loadEvents_settle api state fetched =
     (case fetched of
        Inl error \<Rightarrow> catch_state error
      | Inr (ev, rrweb, related) \<Rightarrow>
          (case mergeBreadcrumbsEntries api related of
             Inl error \<Rightarrow> catch_state error
           | Inr crumbs \<Rightarrow>
               (case loadEvents_merge related of
                  Inl error \<Rightarrow> catch_state error
                | Inr merged \<Rightarrow>
                    state\<lparr>fetchError := None,
                          fetching := False,
                          event := Some ev,
                          mergedReplayEvent := Some merged,
                          replayEvents := Some related,
                          rrwebEvents := Some rrweb,
                          breadcrumbEntry := Some crumbs\<rparr>)))"

text \<open>
  One load cycle: the requests it issues, the argument of its first \<open>setState\<close>
  (line 149), the time at which the awaited promise settles, and the argument of its second
  \<open>setState\<close>, the snapshot that the cycle publishes when it completes.
\<close>

record LoadCycle =
  issued :: "string list"
  started :: State
  completes_at :: nat
  published :: State

definition loadEvents :: "env \<Rightarrow> Options \<Rightarrow> State \<Rightarrow> LoadCycle" where
  "loadEvents api opts state =
     \<lparr>issued = requests (loadEvents_fetches api opts),
      started = loading_state,
      completes_at = settled (loadEvents_fetches api opts),
      published = loadEvents_settle api state (outcome (loadEvents_fetches api opts))\<rparr>"

section \<open>useReplayEvent.tsx: the hook\<close>

text \<open>
  The hook keeps the state slot of \<open>useState\<close>. The effect of line 207 runs
  \<open>loadEvents\<close> at the first invocation and at each invocation where the organisation or
  the slug differs from the previous one. \<open>loadEvents\<close> publishes the loading state at
  once and leaves a cycle in flight, which calls \<open>setState\<close> with its snapshot when it
  completes. Cycles in flight may complete in any order, so completion is a step of its own.
\<close>

record Hook =
  slot :: State
  deps :: "(string \<times> string) option"
  in_flight :: "State list"

datatype action = Invoke Options | Complete nat

definition initial_hook :: Hook where
  "initial_hook = \<lparr>slot = loading_state, deps = None, in_flight = []\<rparr>"

fun step :: "env \<Rightarrow> Hook \<Rightarrow> action \<Rightarrow> Hook" where
  "step api h (Invoke opts) =
     (if deps h = Some (orgId opts, eventSlug opts) then h
      else \<lparr>slot = started (loadEvents api opts (slot h)),
            deps = Some (orgId opts, eventSlug opts),
            in_flight = in_flight h @ [published (loadEvents api opts (slot h))]\<rparr>)"
| "step api h (Complete i) =
     (if i < length (in_flight h)
      then \<lparr>slot = in_flight h ! i,
            deps = deps h,
            in_flight = take i (in_flight h) @ drop (Suc i) (in_flight h)\<rparr>
      else h)"

definition run :: "env \<Rightarrow> action list \<Rightarrow> Hook" where
  "run api actions = foldl (step api) initial_hook actions"

text \<open>The snapshot the hook returns: lines 209 to 218 copy the seven fields of the slot.\<close>

definition useReplayEvent_result :: "Hook \<Rightarrow> State" where
  "useReplayEvent_result h =
     \<lparr>breadcrumbEntry = breadcrumbEntry (slot h),
      event = event (slot h),
      fetchError = fetchError (slot h),
      fetching = fetching (slot h),
      mergedReplayEvent = mergedReplayEvent (slot h),
      replayEvents = replayEvents (slot h),
      rrwebEvents = rrwebEvents (slot h)\<rparr>"

section \<open>A concrete deployment\<close>

text \<open>
  Inputs for the concrete runs below: the organisation \<open>org\<close> and the slug
  \<open>123:abc\<close> of the spec's scenario; a network where every request is answered after one
  time unit, the event endpoint with an event that records the URL it was asked for, the
  attachment list and the index with no row; collaborators that do not throw; of two
  rejections at the same time the left one first.
\<close>

definition example_opts :: Options where
  "example_opts = \<lparr>eventSlug = ''123:abc'', location = JNull, orgId = ''org''\<rparr>"

definition example_api :: env where
  "example_api =
     \<lparr>events_endpoint =
        (\<lambda>url. (1, Inr \<lparr>entries = [], breakdowns = None, endTimestamp = None,
                          rest = [(''url'', JStr url)]\<rparr>)),
      attachments_endpoint = (\<lambda>url. (1, Inr [])),
      download_endpoint = (\<lambda>url. (1, Inr ''{\"events\":[]}'')),
      eventsv2_endpoint = (\<lambda>url q. (1, Inr [])),
      parse_events = (\<lambda>response. Inr []),
      generateEventSlug = (\<lambda>row. case row of JStr slug \<Rightarrow> slug | _ \<Rightarrow> ''undefined:undefined''),
      mergeBreadcrumbsEntries = (\<lambda>related. Inr \<lparr>type = BREADCRUMBS, data = []\<rparr>),
      rejects_first = (\<lambda>e1 e2. True)\<rparr>"

section \<open>Facts about find and flatMap\<close>

lemma find_first_match:
  assumes "\<forall>p \<in> set pre. \<not> P p" and "P e"
  shows "find P (pre @ e # post) = Some e"
  using assms by (induction pre) simp_all

lemma flatMap_append:
  "flatMap f (xs @ ys) =
     (case flatMap f xs of
        Inl e \<Rightarrow> Inl e
      | Inr a \<Rightarrow> (case flatMap f ys of Inl e \<Rightarrow> Inl e | Inr b \<Rightarrow> Inr (a @ b)))"
  by (induction xs) (simp_all split: sum.splits)

lemma flatMap_Inr_iff:
  "(\<exists>zs. flatMap f xs = Inr zs) \<longleftrightarrow> (\<forall>x \<in> set xs. \<exists>ys. f x = Inr ys)"
proof (induction xs)
  case Nil
  show ?case by simp
next
  case (Cons x xs)
  show ?case
  proof (cases "f x")
    case (Inl e)
    then show ?thesis by auto
  next
    case (Inr ys)
    with Cons show ?thesis by (cases "flatMap f xs") auto
  qed
qed

lemma replayEvent_spans_Inr_iff:
  "(\<exists>ys. replayEvent_spans ev = Inr ys) \<longleftrightarrow> find isReplayEventEntity (entries ev) \<noteq> None"
  by (simp add: replayEvent_spans_def split: option.splits)

lemma merge_succeeds_iff:
  "(\<exists>merged. loadEvents_merge related = Inr merged) \<longleftrightarrow>
     (\<forall>ev \<in> set related. find isReplayEventEntity (entries ev) \<noteq> None)"
proof -
  have "(\<exists>merged. loadEvents_merge related = Inr merged) \<longleftrightarrow>
          (\<exists>zs. flatMap replayEvent_spans related = Inr zs)"
    by (auto simp: loadEvents_merge_def loadEvents_spans_def split: sum.splits)
  then show ?thesis
    by (simp add: flatMap_Inr_iff replayEvent_spans_Inr_iff)
qed

section \<open>Properties of the merge step\<close>

text \<open>
  C4: on the empty related-event list the merge step does not throw; the merged event's
  only entry is a spans entry with no span, and its endTimestamp is undefined.
\<close>

theorem merge_empty_related_events:
  "\<exists>merged. loadEvents_merge [] = Inr merged
     \<and> entries merged = [\<lparr>type = SPANS, data = []\<rparr>]
     \<and> endTimestamp merged = None"
  by (simp add: loadEvents_merge_def loadEvents_spans_def
      loadEvents_mergedReplayEvent_def last_timestamp_def)

text \<open>
  C2: for related events A and B, where the first spans entry of A holds s1, s2 and the first
  spans entry of B holds s3, the merged event has the single entry of kind spans with data
  s1, s2, s3, and its endTimestamp is the timestamp of s3.
\<close>

theorem merge_two_related_events:
  assumes "find isReplayEventEntity (entries A) = Some ea" and "data ea = [s1, s2]"
    and "find isReplayEventEntity (entries B) = Some eb" and "data eb = [s3]"
  shows "\<exists>merged. loadEvents_merge [A, B] = Inr merged
     \<and> entries merged = [\<lparr>type = SPANS, data = [s1, s2, s3]\<rparr>]
     \<and> endTimestamp merged = Some (timestamp s3)"
  using assms
  by (simp add: loadEvents_merge_def loadEvents_spans_def replayEvent_spans_def
      loadEvents_mergedReplayEvent_def last_timestamp_def)

theorem merge_two_related_events_witness:
  "\<exists>merged.
     loadEvents_merge
       [\<lparr>entries = [\<lparr>type = BREADCRUMBS, data = []\<rparr>,
                    \<lparr>type = SPANS, data = [\<lparr>span_id = ''s1'', timestamp = 10\<rparr>,
                                            \<lparr>span_id = ''s2'', timestamp = 20\<rparr>]\<rparr>],
         breakdowns = None, endTimestamp = Some 25, rest = [(''id'', JStr ''A'')]\<rparr>,
        \<lparr>entries = [\<lparr>type = SPANS, data = [\<lparr>span_id = ''s3'', timestamp = 30\<rparr>]\<rparr>],
         breakdowns = None, endTimestamp = Some 35, rest = [(''id'', JStr ''B'')]\<rparr>]
       = Inr merged
     \<and> entries merged =
         [\<lparr>type = SPANS, data = [\<lparr>span_id = ''s1'', timestamp = 10\<rparr>,
                                 \<lparr>span_id = ''s2'', timestamp = 20\<rparr>,
                                 \<lparr>span_id = ''s3'', timestamp = 30\<rparr>]\<rparr>]
     \<and> endTimestamp merged = Some 30"
  using merge_two_related_events
    [of "\<lparr>entries = [\<lparr>type = BREADCRUMBS, data = []\<rparr>,
                    \<lparr>type = SPANS, data = [\<lparr>span_id = ''s1'', timestamp = 10\<rparr>,
                                            \<lparr>span_id = ''s2'', timestamp = 20\<rparr>]\<rparr>],
         breakdowns = None, endTimestamp = Some 25, rest = [(''id'', JStr ''A'')]\<rparr>"
       "\<lparr>type = SPANS, data = [\<lparr>span_id = ''s1'', timestamp = 10\<rparr>,
                               \<lparr>span_id = ''s2'', timestamp = 20\<rparr>]\<rparr>"
       "\<lparr>span_id = ''s1'', timestamp = 10\<rparr>" "\<lparr>span_id = ''s2'', timestamp = 20\<rparr>"
       "\<lparr>entries = [\<lparr>type = SPANS, data = [\<lparr>span_id = ''s3'', timestamp = 30\<rparr>]\<rparr>],
         breakdowns = None, endTimestamp = Some 35, rest = [(''id'', JStr ''B'')]\<rparr>"
       "\<lparr>type = SPANS, data = [\<lparr>span_id = ''s3'', timestamp = 30\<rparr>]\<rparr>"
       "\<lparr>span_id = ''s3'', timestamp = 30\<rparr>"]
  by (simp add: isReplayEventEntity_def)

text \<open>
  C5, as the code has it: on the empty related-event list the merge step reads the first
  element as undefined, spreading it copies no attribute and throws nothing, and the merged
  event has just the three attributes the step writes: breakdowns null, the single spans
  entry with no span, endTimestamp undefined.
\<close>

theorem merge_empty_is_bare_event:
  "loadEvents_merge [] =
     Inr \<lparr>entries = [\<lparr>type = SPANS, data = []\<rparr>],
          breakdowns = Some JNull,
          endTimestamp = None,
          rest = []\<rparr>"
  by (simp add: loadEvents_merge_def loadEvents_spans_def
      loadEvents_mergedReplayEvent_def last_timestamp_def)

text \<open>C5 as stated (the merge step fails on the empty list) does not hold.\<close>

theorem merge_empty_fault_counterexample:
  "\<not> isl (loadEvents_merge [])"
  by (simp add: loadEvents_merge_def loadEvents_spans_def)

section \<open>The first spans entry\<close>

lemma isReplayEventEntity_iff: "isReplayEventEntity e \<longleftrightarrow> type e = SPANS"
  by (simp add: isReplayEventEntity_def split: EntryType.splits)

lemma replayEvent_spans_first:
  assumes "first_spans_entry ev e"
  shows "replayEvent_spans ev = Inr (data e)"
proof -
  from assms obtain pre post where "entries ev = pre @ e # post"
    and "\<forall>p \<in> set pre. \<not> isReplayEventEntity p" and "isReplayEventEntity e"
    unfolding isReplayEventEntity_iff by blast
  then show ?thesis
    by (simp add: replayEvent_spans_def find_first_match)
qed

lemma first_spans_entry_exists:
  assumes "\<exists>e \<in> set (entries ev). type e = SPANS"
  shows "\<exists>e. first_spans_entry ev e"
proof -
  from assms obtain pre e post where "entries ev = pre @ e # post" "type e = SPANS"
    "\<forall>p \<in> set pre. \<not> type p = SPANS"
    using split_list_first_prop [of "entries ev" "\<lambda>e. type e = SPANS"] by blast
  then show ?thesis by blast
qed

lemma first_spans_entries_exist:
  assumes "\<forall>ev \<in> set related. \<exists>e \<in> set (entries ev). type e = SPANS"
  shows "\<exists>firsts. list_all2 first_spans_entry related firsts"
  using assms
proof (induction related)
  case Nil
  show ?case by simp
next
  case (Cons ev related)
  then obtain firsts where "list_all2 first_spans_entry related firsts" by auto
  moreover from Cons.prems obtain e where "first_spans_entry ev e"
    using first_spans_entry_exists [of ev] by auto
  ultimately have "list_all2 first_spans_entry (ev # related) (e # firsts)" by simp
  then show ?case by blast
qed

lemma loadEvents_spans_firsts:
  assumes "list_all2 first_spans_entry related firsts"
  shows "loadEvents_spans related = Inr (concat (map data firsts))"
  using assms
proof (induction rule: list_all2_induct)
  case Nil
  show ?case by (simp add: loadEvents_spans_def)
next
  case (Cons ev related e firsts)
  from Cons.hyps(1) have "replayEvent_spans ev = Inr (data e)"
    by (rule replayEvent_spans_first)
  with Cons.IH show ?case by (simp add: loadEvents_spans_def)
qed

lemma loadEvents_merge_firsts:
  assumes "list_all2 first_spans_entry related firsts"
  shows "loadEvents_merge related =
     Inr (loadEvents_mergedReplayEvent related (concat (map data firsts)))"
  using loadEvents_spans_firsts [OF assms] by (simp add: loadEvents_merge_def)

text \<open>
  C7: let the entries of a related event be \<open>pre\<close>, then an entry \<open>e\<close> tagged spans,
  then \<open>post\<close>, with no entry of \<open>pre\<close> tagged spans, and let every other related event
  have an entry tagged spans. Then the merge returns, and the merged span sequence is the
  spans of the first spans entries of the events before, then the data of \<open>e\<close>, then the
  spans of the first spans entries of the events after: whatever \<open>post\<close> holds, also
  entries tagged spans, contributes nothing.
\<close>

theorem merge_uses_first_spans_entry_only:
  assumes "entries ev = pre @ e # post"
    and "\<forall>p \<in> set pre. type p \<noteq> SPANS"
    and "type e = SPANS"
    and "\<forall>other \<in> set (before @ after). \<exists>s \<in> set (entries other). type s = SPANS"
  shows "\<exists>fb fa merged.
       list_all2 first_spans_entry before fb
     \<and> list_all2 first_spans_entry after fa
     \<and> loadEvents_merge (before @ ev # after) = Inr merged
     \<and> entries merged =
         [\<lparr>type = SPANS, data = concat (map data fb) @ data e @ concat (map data fa)\<rparr>]"
proof -
  from assms(4) obtain fb where fb: "list_all2 first_spans_entry before fb"
    using first_spans_entries_exist [of before] by auto
  from assms(4) obtain fa where fa: "list_all2 first_spans_entry after fa"
    using first_spans_entries_exist [of after] by auto
  from assms(1-3) have "first_spans_entry ev e" by blast
  with fa have "list_all2 first_spans_entry (ev # after) (e # fa)" by simp
  with fb have "list_all2 first_spans_entry (before @ ev # after) (fb @ e # fa)"
    by (rule list_all2_appendI)
  then have "loadEvents_merge (before @ ev # after) =
      Inr (loadEvents_mergedReplayEvent (before @ ev # after) (concat (map data (fb @ e # fa))))"
    by (rule loadEvents_merge_firsts)
  moreover have "entries (loadEvents_mergedReplayEvent evs spans) = [\<lparr>type = SPANS, data = spans\<rparr>]"
    for evs spans
    by (simp add: loadEvents_mergedReplayEvent_def split: list.splits)
  ultimately have "loadEvents_merge (before @ ev # after) =
        Inr (loadEvents_mergedReplayEvent (before @ ev # after) (concat (map data (fb @ e # fa))))
     \<and> entries (loadEvents_mergedReplayEvent (before @ ev # after) (concat (map data (fb @ e # fa))))
        = [\<lparr>type = SPANS, data = concat (map data fb) @ data e @ concat (map data fa)\<rparr>]"
    by simp
  with fb fa show ?thesis by blast
qed

theorem merge_uses_first_spans_entry_only_witness:
  "\<exists>merged.
     loadEvents_merge
       [\<lparr>entries = [\<lparr>type = SPANS, data = [\<lparr>span_id = ''s0'', timestamp = 5\<rparr>]\<rparr>],
         breakdowns = None, endTimestamp = None, rest = [(''id'', JStr ''A'')]\<rparr>,
        \<lparr>entries = [\<lparr>type = BREADCRUMBS, data = []\<rparr>,
                    \<lparr>type = SPANS, data = [\<lparr>span_id = ''s1'', timestamp = 10\<rparr>]\<rparr>,
                    \<lparr>type = SPANS, data = [\<lparr>span_id = ''s2'', timestamp = 20\<rparr>]\<rparr>],
         breakdowns = None, endTimestamp = None, rest = [(''id'', JStr ''B'')]\<rparr>]
       = Inr merged
     \<and> entries merged =
         [\<lparr>type = SPANS, data = [\<lparr>span_id = ''s0'', timestamp = 5\<rparr>,
                                 \<lparr>span_id = ''s1'', timestamp = 10\<rparr>]\<rparr>]"
proof -
  let ?e0 = "\<lparr>type = SPANS, data = [\<lparr>span_id = ''s0'', timestamp = 5\<rparr>]\<rparr>"
  let ?A = "\<lparr>entries = [?e0], breakdowns = None, endTimestamp = None,
             rest = [(''id'', JStr ''A'')]\<rparr>"
  let ?c = "\<lparr>type = BREADCRUMBS, data = []\<rparr>"
  let ?e1 = "\<lparr>type = SPANS, data = [\<lparr>span_id = ''s1'', timestamp = 10\<rparr>]\<rparr>"
  let ?e2 = "\<lparr>type = SPANS, data = [\<lparr>span_id = ''s2'', timestamp = 20\<rparr>]\<rparr>"
  let ?B = "\<lparr>entries = [?c, ?e1, ?e2], breakdowns = None, endTimestamp = None,
             rest = [(''id'', JStr ''B'')]\<rparr>"
  have h1: "entries ?B = [?c] @ ?e1 # [?e2]" by simp
  have h2: "\<forall>p \<in> set [?c]. type p \<noteq> SPANS" by simp
  have h3: "type ?e1 = SPANS" by simp
  have h4: "\<forall>other \<in> set ([?A] @ []). \<exists>s \<in> set (entries other). type s = SPANS" by simp
  from merge_uses_first_spans_entry_only [OF h1 h2 h3 h4]
  obtain fb fa merged where fb: "list_all2 first_spans_entry [?A] fb"
    and fa: "list_all2 first_spans_entry [] fa"
    and m: "loadEvents_merge ([?A] @ ?B # []) = Inr merged"
    and e: "entries merged =
        [\<lparr>type = SPANS, data = concat (map data fb) @ data ?e1 @ concat (map data fa)\<rparr>]"
    by blast
  from fa have "fa = []" by simp
  moreover from fb obtain e0 where "fb = [e0]" and "first_spans_entry ?A e0"
    by (auto simp: list_all2_Cons1)
  then have "fb = [?e0]"
    by (auto simp: Cons_eq_append_conv)
  ultimately have "entries merged =
      [\<lparr>type = SPANS, data = [\<lparr>span_id = ''s0'', timestamp = 5\<rparr>,
                               \<lparr>span_id = ''s1'', timestamp = 10\<rparr>]\<rparr>]"
    using e by simp
  with m show ?thesis by simp
qed

text \<open>
  C8: on a non-empty related-event list where every event has an entry tagged spans, the
  merge returns the first related event with three attributes written: breakdowns is null,
  entries is the single spans entry holding the concatenated spans of the first spans
  entries, and endTimestamp is the timestamp of the last concatenated span, or undefined
  when there is none. Every other attribute is that of the first related event.
\<close>

theorem merge_frame:
  assumes "related \<noteq> []"
    and "\<forall>ev \<in> set related. \<exists>e \<in> set (entries ev). type e = SPANS"
  shows "\<exists>firsts merged.
       list_all2 first_spans_entry related firsts
     \<and> loadEvents_merge related = Inr merged
     \<and> merged = (hd related)
         \<lparr>breakdowns := Some JNull,
          entries := [\<lparr>type = SPANS, data = concat (map data firsts)\<rparr>],
          endTimestamp :=
            (if concat (map data firsts) = [] then None
             else Some (timestamp (last (concat (map data firsts)))))\<rparr>
     \<and> rest merged = rest (hd related)"
proof -
  from assms(2) obtain firsts where f: "list_all2 first_spans_entry related firsts"
    using first_spans_entries_exist by blast
  from assms(1) obtain first others where r: "related = first # others"
    by (cases related) auto
  let ?spans = "concat (map data firsts)"
  have m: "loadEvents_merge related = Inr (loadEvents_mergedReplayEvent related ?spans)"
    using f by (rule loadEvents_merge_firsts)
  have g: "loadEvents_mergedReplayEvent (first # others) spans = first
         \<lparr>breakdowns := Some JNull,
          entries := [\<lparr>type = SPANS, data = spans\<rparr>],
          endTimestamp := (if spans = [] then None else Some (timestamp (last spans)))\<rparr>"
    for spans
    by (cases spans) (simp_all add: loadEvents_mergedReplayEvent_def last_timestamp_def)
  have eq: "loadEvents_mergedReplayEvent related ?spans = (hd related)
         \<lparr>breakdowns := Some JNull,
          entries := [\<lparr>type = SPANS, data = ?spans\<rparr>],
          endTimestamp := (if ?spans = [] then None else Some (timestamp (last ?spans)))\<rparr>"
    unfolding r list.sel by (rule g)
  have "rest (loadEvents_mergedReplayEvent related ?spans) = rest (hd related)"
    unfolding eq by simp
  with f m eq show ?thesis by blast
qed

theorem merge_frame_witness:
  "loadEvents_merge
     [\<lparr>entries = [\<lparr>type = SPANS, data = [\<lparr>span_id = ''s1'', timestamp = 10\<rparr>]\<rparr>],
       breakdowns = Some (JObj []), endTimestamp = Some 99,
       rest = [(''id'', JStr ''A''), (''title'', JStr ''sentry-replay-event'')]\<rparr>,
      \<lparr>entries = [\<lparr>type = SPANS, data = [\<lparr>span_id = ''s2'', timestamp = 20\<rparr>]\<rparr>],
       breakdowns = None, endTimestamp = Some 98,
       rest = [(''id'', JStr ''B'')]\<rparr>]
   = Inr \<lparr>entries = [\<lparr>type = SPANS, data = [\<lparr>span_id = ''s1'', timestamp = 10\<rparr>,
                                             \<lparr>span_id = ''s2'', timestamp = 20\<rparr>]\<rparr>],
          breakdowns = Some JNull, endTimestamp = Some 20,
          rest = [(''id'', JStr ''A''), (''title'', JStr ''sentry-replay-event'')]\<rparr>"
proof -
  let ?e1 = "\<lparr>type = SPANS, data = [\<lparr>span_id = ''s1'', timestamp = 10\<rparr>]\<rparr>"
  let ?e2 = "\<lparr>type = SPANS, data = [\<lparr>span_id = ''s2'', timestamp = 20\<rparr>]\<rparr>"
  let ?A = "\<lparr>entries = [?e1], breakdowns = Some (JObj []), endTimestamp = Some 99,
             rest = [(''id'', JStr ''A''), (''title'', JStr ''sentry-replay-event'')]\<rparr>"
  let ?B = "\<lparr>entries = [?e2], breakdowns = None, endTimestamp = Some 98,
             rest = [(''id'', JStr ''B'')]\<rparr>"
  have h1: "[?A, ?B] \<noteq> []" by simp
  have h2: "\<forall>ev \<in> set [?A, ?B]. \<exists>e \<in> set (entries ev). type e = SPANS" by simp
  from merge_frame [OF h1 h2]
  obtain firsts merged where f: "list_all2 first_spans_entry [?A, ?B] firsts"
    and m: "loadEvents_merge [?A, ?B] = Inr merged"
    and e: "merged = (hd [?A, ?B])
         \<lparr>breakdowns := Some JNull,
          entries := [\<lparr>type = SPANS, data = concat (map data firsts)\<rparr>],
          endTimestamp :=
            (if concat (map data firsts) = [] then None
             else Some (timestamp (last (concat (map data firsts)))))\<rparr>"
    by blast
  from f obtain a b where "firsts = [a, b]" "first_spans_entry ?A a" "first_spans_entry ?B b"
    by (auto simp: list_all2_Cons1)
  then have "firsts = [?e1, ?e2]"
    by (auto simp: Cons_eq_append_conv)
  with e have "merged =
      \<lparr>entries = [\<lparr>type = SPANS, data = [\<lparr>span_id = ''s1'', timestamp = 10\<rparr>,
                                          \<lparr>span_id = ''s2'', timestamp = 20\<rparr>]\<rparr>],
       breakdowns = Some JNull, endTimestamp = Some 20,
       rest = [(''id'', JStr ''A''), (''title'', JStr ''sentry-replay-event'')]\<rparr>"
    by simp
  with m show ?thesis by simp
qed

section \<open>Facts about the regular expression\<close>

lemma match_here_iff:
  "match_here r s \<longleftrightarrow> (\<exists>mid suf. s = mid @ suf \<and> list_all2 atom_matches r mid)"
proof (induction r s rule: match_here.induct)
  case (1 s)
  show ?case by simp
next
  case (2 a as)
  show ?case by simp
next
  case (3 a as x xs)
  show ?case
  proof
    assume "match_here (a # as) (x # xs)"
    with 3 obtain mid suf where "xs = mid @ suf" "list_all2 atom_matches as mid" "atom_matches a x"
      by auto
    then have "x # xs = (x # mid) @ suf \<and> list_all2 atom_matches (a # as) (x # mid)"
      by simp
    then show "\<exists>mid suf. x # xs = mid @ suf \<and> list_all2 atom_matches (a # as) mid"
      by blast
  next
    assume "\<exists>mid suf. x # xs = mid @ suf \<and> list_all2 atom_matches (a # as) mid"
    then obtain mid suf where m: "x # xs = mid @ suf" "list_all2 atom_matches (a # as) mid"
      by blast
    then obtain m ms where "mid = m # ms" "atom_matches a m" "list_all2 atom_matches as ms"
      by (auto simp: list_all2_Cons1)
    with m 3 show "match_here (a # as) (x # xs)"
      by auto
  qed
qed

lemma regex_test_iff:
  "regex_test r s \<longleftrightarrow> (\<exists>pre mid suf. s = pre @ mid @ suf \<and> list_all2 atom_matches r mid)"
proof (induction s)
  case Nil
  show ?case by (auto simp: match_here_iff)
next
  case (Cons x xs)
  show ?case
  proof
    assume "regex_test r (x # xs)"
    then consider "match_here r (x # xs)" | "regex_test r xs" by auto
    then show "\<exists>pre mid suf. x # xs = pre @ mid @ suf \<and> list_all2 atom_matches r mid"
    proof cases
      case 1
      then obtain mid suf where "x # xs = [] @ mid @ suf" "list_all2 atom_matches r mid"
        by (auto simp: match_here_iff)
      then show ?thesis by blast
    next
      case 2
      with Cons obtain pre mid suf where "xs = pre @ mid @ suf" "list_all2 atom_matches r mid"
        by blast
      then have "x # xs = (x # pre) @ mid @ suf \<and> list_all2 atom_matches r mid" by simp
      then show ?thesis by blast
    qed
  next
    assume "\<exists>pre mid suf. x # xs = pre @ mid @ suf \<and> list_all2 atom_matches r mid"
    then obtain pre mid suf where p: "x # xs = pre @ mid @ suf" "list_all2 atom_matches r mid"
      by blast
    show "regex_test r (x # xs)"
    proof (cases pre)
      case Nil
      with p have "match_here r (x # xs)" by (auto simp: match_here_iff)
      then show ?thesis by simp
    next
      case (Cons y ys)
      with p have "xs = ys @ mid @ suf" by simp
      with p(2) Cons.IH have "regex_test r xs" by blast
      then show ?thesis by simp
    qed
  qed
qed

lemma list_all2_Lit:
  "list_all2 atom_matches (map Lit cs) us \<longleftrightarrow> us = cs"
proof (induction cs arbitrary: us)
  case Nil
  show ?case by simp
next
  case (Cons c cs)
  then show ?case by (cases us) auto
qed

lemma list_all2_replicate_left:
  "list_all2 P (replicate n a) us \<longleftrightarrow> length us = n \<and> (\<forall>u \<in> set us. P a u)"
proof (induction n arbitrary: us)
  case 0
  show ?case by auto
next
  case (Suc n)
  then show ?case by (cases us) auto
qed

lemma list_all2_Digit:
  "list_all2 atom_matches (replicate n Digit) us \<longleftrightarrow>
     length us = n \<and> (\<forall>d \<in> set us. d \<in> set ''0123456789'')"
  unfolding list_all2_replicate_left atom_matches.simps ..

lemma list_all2_append_split:
  assumes "list_all2 P (xs @ ys) zs"
  obtains us vs where "zs = us @ vs" "list_all2 P xs us" "list_all2 P ys vs"
  using assms by (auto simp: list_all2_append1)

lemma pattern_matches_iff:
  "list_all2 atom_matches IS_RRWEB_ATTACHMENT_FILENAME mid \<longleftrightarrow>
     (\<exists>ds c. mid = ''rrweb-'' @ ds @ c # ''json''
        \<and> length ds = 13 \<and> (\<forall>d \<in> set ds. d \<in> set ''0123456789'')
        \<and> c \<noteq> CHR 0x0A \<and> c \<noteq> CHR 0x0D)"
  (is "?L \<longleftrightarrow> ?R")
proof
  assume ?L
  then have "list_all2 atom_matches
      (map Lit ''rrweb-'' @ (replicate 13 Digit @ ([AnyChar] @ map Lit ''json''))) mid"
    unfolding IS_RRWEB_ATTACHMENT_FILENAME_def .
  then obtain a b where ab: "mid = a @ b" "list_all2 atom_matches (map Lit ''rrweb-'') a"
    "list_all2 atom_matches (replicate 13 Digit @ ([AnyChar] @ map Lit ''json'')) b"
    by (rule list_all2_append_split)
  from ab(3) obtain ds e where de: "b = ds @ e" "list_all2 atom_matches (replicate 13 Digit) ds"
    "list_all2 atom_matches ([AnyChar] @ map Lit ''json'') e"
    by (rule list_all2_append_split)
  from de(3) obtain c' f where cf: "e = c' @ f" "list_all2 atom_matches [AnyChar] c'"
    "list_all2 atom_matches (map Lit ''json'') f"
    by (rule list_all2_append_split)
  from cf(2) obtain c where c: "c' = [c]" "c \<noteq> CHR 0x0A" "c \<noteq> CHR 0x0D"
    by (auto simp: list_all2_Cons1)
  from ab(2) have a: "a = ''rrweb-''" by (simp only: list_all2_Lit)
  from cf(3) have f: "f = ''json''" by (simp only: list_all2_Lit)
  from de(2) have ds: "length ds = 13" "\<forall>d \<in> set ds. d \<in> set ''0123456789''"
    unfolding list_all2_Digit by blast+
  have "mid = ''rrweb-'' @ ds @ c # ''json''"
    unfolding ab(1) de(1) cf(1) c(1) a f by simp
  with ds c(2,3) show ?R by blast
next
  assume ?R
  then obtain ds c where r: "mid = ''rrweb-'' @ ds @ c # ''json''" "length ds = 13"
    "\<forall>d \<in> set ds. d \<in> set ''0123456789''" "c \<noteq> CHR 0x0A" "c \<noteq> CHR 0x0D"
    by blast
  have 1: "list_all2 atom_matches (map Lit ''rrweb-'') ''rrweb-''"
    by (simp only: list_all2_Lit)
  have 2: "list_all2 atom_matches (replicate 13 Digit) ds"
    using r(2,3) unfolding list_all2_Digit by blast
  have 4: "list_all2 atom_matches (map Lit ''json'') ''json''"
    by (simp only: list_all2_Lit)
  have 3: "list_all2 atom_matches ([AnyChar] @ map Lit ''json'') ([c] @ ''json'')"
    using r(4,5) by (intro list_all2_appendI 4) simp
  have "list_all2 atom_matches
      (map Lit ''rrweb-'' @ (replicate 13 Digit @ ([AnyChar] @ map Lit ''json'')))
      (''rrweb-'' @ (ds @ ([c] @ ''json'')))"
    by (intro list_all2_appendI 1 2 3)
  moreover have "mid = ''rrweb-'' @ (ds @ ([c] @ ''json''))"
    unfolding r(1) by simp
  ultimately show ?L
    unfolding IS_RRWEB_ATTACHMENT_FILENAME_def by simp
qed

lemma isRRWebEventAttachment_iff:
  "isRRWebEventAttachment a \<longleftrightarrow>
     (\<exists>pre ds c suf. name a = pre @ ''rrweb-'' @ ds @ c # ''json'' @ suf
        \<and> length ds = 13 \<and> (\<forall>d \<in> set ds. d \<in> set ''0123456789'')
        \<and> c \<noteq> CHR 0x0A \<and> c \<noteq> CHR 0x0D)"
  (is "?L \<longleftrightarrow> ?R")
proof
  assume ?L
  then obtain pre mid suf where n: "name a = pre @ mid @ suf"
    and "list_all2 atom_matches IS_RRWEB_ATTACHMENT_FILENAME mid"
    unfolding isRRWebEventAttachment_def regex_test_iff by blast
  then obtain ds c where m: "mid = ''rrweb-'' @ ds @ c # ''json''"
    and d: "length ds = 13" "\<forall>d \<in> set ds. d \<in> set ''0123456789''"
      "c \<noteq> CHR 0x0A" "c \<noteq> CHR 0x0D"
    unfolding pattern_matches_iff by blast
  have "name a = pre @ ''rrweb-'' @ ds @ c # ''json'' @ suf"
    unfolding n m by simp
  with d show ?R by blast
next
  assume ?R
  then obtain pre ds c suf where r: "name a = pre @ ''rrweb-'' @ ds @ c # ''json'' @ suf"
    and d: "length ds = 13" "\<forall>d \<in> set ds. d \<in> set ''0123456789''"
      "c \<noteq> CHR 0x0A" "c \<noteq> CHR 0x0D"
    by blast
  from d have "list_all2 atom_matches IS_RRWEB_ATTACHMENT_FILENAME (''rrweb-'' @ ds @ c # ''json'')"
    unfolding pattern_matches_iff by blast
  moreover have "name a = pre @ (''rrweb-'' @ ds @ c # ''json'') @ suf"
    unfolding r by simp
  ultimately show ?L
    unfolding isRRWebEventAttachment_def regex_test_iff by blast
qed

section \<open>Facts about requests and promises\<close>


lemma requests_await:
  "requests (await p k) =
     (case outcome p of Inl e \<Rightarrow> requests p | Inr v \<Rightarrow> requests p @ requests (k v))"
  by (cases "(p, k)" rule: await.cases) (simp_all add: requests_def outcome_def)

lemma outcome_await:
  "outcome (await p k) = (case outcome p of Inl e \<Rightarrow> Inl e | Inr v \<Rightarrow> outcome (k v))"
  by (cases "(p, k)" rule: await.cases) (simp_all add: outcome_def)

lemma requests_both: "requests (both first p q) = requests p @ requests q"
  by (cases "(first, p, q)" rule: both.cases) (simp_all add: requests_def)

lemma requests_Promise_all: "requests (Promise_all first ps) = concat (map requests ps)"
proof (induction ps)
  case Nil
  show ?case by (simp add: requests_def)
next
  case (Cons p ps)
  have "requests (Promise_all first (p # ps)) = requests (both first p (Promise_all first ps))"
    by (simp add: requests_def split: prod.splits sum.splits)
  with Cons show ?case by (simp add: requests_both)
qed

lemma requests_requestPromise: "requests (requestPromise network url) = [url]"
  by (simp add: requests_def requestPromise_def)

lemma outcome_requestPromise: "outcome (requestPromise network url) = snd (network url)"
  by (simp add: outcome_def requestPromise_def)

lemma requests_pure: "requests ([], t, r) = []"
  by (simp add: requests_def)

lemma requests_fetchRRWebAttachment:
  "requests (fetchRRWebAttachment api opts a) = [download_url opts a]"
  by (simp add: fetchRRWebAttachment_def requests_await requests_requestPromise
      requests_pure split: sum.splits)

lemma requests_fetchRRWebEvents:
  "requests (fetchRRWebEvents api opts) =
     (case snd (attachments_endpoint api (attachments_url opts)) of
        Inl e \<Rightarrow> [attachments_url opts]
      | Inr attachmentIds \<Rightarrow>
          attachments_url opts # map (download_url opts) (rrwebAttachmentIds attachmentIds))"
proof -
  have c: "concat (map (requests \<circ> fetchRRWebAttachment api opts) xs) = map (download_url opts) xs"
    for xs by (induction xs) (simp_all add: requests_fetchRRWebAttachment)
  show ?thesis
    by (simp add: fetchRRWebEvents_def requests_await requests_requestPromise requests_pure
      outcome_requestPromise requests_Promise_all c split: sum.splits)
qed

lemma spec_rrweb_filename_iff:
  "spec_rrweb_filename s \<longleftrightarrow>
     (\<exists>ds. s = ''rrweb-'' @ ds @ ''.json'' \<and> length ds = 13
        \<and> (\<forall>d \<in> set ds. d \<in> set ''0123456789''))"
  (is "?L \<longleftrightarrow> ?R")
proof
  assume l: ?L
  have "s = take 6 s @ drop 6 s" by simp
  moreover have "drop 6 s = take 13 (drop 6 s) @ drop 13 (drop 6 s)"
    by (rule append_take_drop_id [symmetric])
  moreover have "drop 13 (drop 6 s) = drop 19 s" by simp
  ultimately have "s = take 6 s @ take 13 (drop 6 s) @ drop 19 s" by metis
  with l have "s = ''rrweb-'' @ take 13 (drop 6 s) @ ''.json''"
    unfolding spec_rrweb_filename_def by metis
  moreover from l have "length (take 13 (drop 6 s)) = 13"
    unfolding spec_rrweb_filename_def by simp
  moreover from l have "\<forall>d \<in> set (take 13 (drop 6 s)). d \<in> set ''0123456789''"
    unfolding spec_rrweb_filename_def by blast
  ultimately show ?R by blast
next
  assume ?R
  then obtain ds where r: "s = ''rrweb-'' @ ds @ ''.json''" "length ds = 13"
    "\<forall>d \<in> set ds. d \<in> set ''0123456789''" by blast
  show ?L unfolding spec_rrweb_filename_def r(1) using r(2,3) by simp
qed


section \<open>The attachment collector\<close>

text \<open>
  C3, as the code has it: when the attachment list arrives, the collector requests the list
  and then one download for each selected record and nothing else, the selected records in
  the order of the list. Every record whose name contains rrweb-, thirteen digits and .json
  is selected; every selected record is one of the list, and its name contains rrweb-,
  thirteen digits, one more character and json.
\<close>

theorem attachment_collector_selection:
  assumes "snd (attachments_endpoint api (attachments_url opts)) = Inr attachmentIds"
  shows "requests (fetchRRWebEvents api opts) =
       attachments_url opts # map (download_url opts) (rrwebAttachmentIds attachmentIds)
     \<and> subseq (rrwebAttachmentIds attachmentIds) attachmentIds
     \<and> (\<forall>a \<in> set attachmentIds.
          (\<exists>pre ds suf. name a = pre @ ''rrweb-'' @ ds @ ''.json'' @ suf
             \<and> length ds = 13 \<and> (\<forall>d \<in> set ds. d \<in> set ''0123456789''))
          \<longrightarrow> a \<in> set (rrwebAttachmentIds attachmentIds))
     \<and> (\<forall>a \<in> set (rrwebAttachmentIds attachmentIds).
          a \<in> set attachmentIds
          \<and> (\<exists>pre ds c suf. name a = pre @ ''rrweb-'' @ ds @ c # ''json'' @ suf
             \<and> length ds = 13 \<and> (\<forall>d \<in> set ds. d \<in> set ''0123456789'')))"
proof (intro conjI ballI impI)
  show "requests (fetchRRWebEvents api opts) =
      attachments_url opts # map (download_url opts) (rrwebAttachmentIds attachmentIds)"
    using assms by (simp add: requests_fetchRRWebEvents)
next
  show "subseq (rrwebAttachmentIds attachmentIds) attachmentIds"
    by (simp add: rrwebAttachmentIds_def)
next
  fix a
  assume a: "a \<in> set attachmentIds"
    and "\<exists>pre ds suf. name a = pre @ ''rrweb-'' @ ds @ ''.json'' @ suf
      \<and> length ds = 13 \<and> (\<forall>d \<in> set ds. d \<in> set ''0123456789'')"
  then obtain pre ds suf where n: "name a = pre @ ''rrweb-'' @ ds @ ''.json'' @ suf"
    and d: "length ds = 13" "\<forall>d \<in> set ds. d \<in> set ''0123456789''"
    by blast
  have "name a = pre @ ''rrweb-'' @ ds @ CHR ''.'' # ''json'' @ suf"
    unfolding n by simp
  moreover have "CHR ''.'' \<noteq> CHR 0x0A" "CHR ''.'' \<noteq> CHR 0x0D"
    by simp_all
  ultimately have "isRRWebEventAttachment a"
    unfolding isRRWebEventAttachment_iff using d by blast
  with a show "a \<in> set (rrwebAttachmentIds attachmentIds)"
    by (simp add: rrwebAttachmentIds_def)
next
  fix a
  assume "a \<in> set (rrwebAttachmentIds attachmentIds)"
  then show "a \<in> set attachmentIds"
    by (simp add: rrwebAttachmentIds_def)
next
  fix a
  assume "a \<in> set (rrwebAttachmentIds attachmentIds)"
  then have "isRRWebEventAttachment a"
    by (simp add: rrwebAttachmentIds_def)
  then show "\<exists>pre ds c suf. name a = pre @ ''rrweb-'' @ ds @ c # ''json'' @ suf
      \<and> length ds = 13 \<and> (\<forall>d \<in> set ds. d \<in> set ''0123456789'')"
    unfolding isRRWebEventAttachment_iff by blast
qed

theorem attachment_collector_selection_witness:
  "snd (attachments_endpoint
          (example_api\<lparr>attachments_endpoint :=
             (\<lambda>url. (1, Inr [\<lparr>attachment_id = ''1'', name = ''rrweb-1670000000001.json''\<rparr>,
                               \<lparr>attachment_id = ''2'', name = ''other.json''\<rparr>]))\<rparr>)
          (attachments_url example_opts))
     = Inr [\<lparr>attachment_id = ''1'', name = ''rrweb-1670000000001.json''\<rparr>,
            \<lparr>attachment_id = ''2'', name = ''other.json''\<rparr>]
   \<and> requests (fetchRRWebEvents
          (example_api\<lparr>attachments_endpoint :=
             (\<lambda>url. (1, Inr [\<lparr>attachment_id = ''1'', name = ''rrweb-1670000000001.json''\<rparr>,
                               \<lparr>attachment_id = ''2'', name = ''other.json''\<rparr>]))\<rparr>)
          example_opts)
     = [''/projects/org/123/events/abc/attachments/'',
        ''/api/0/projects/org/123/events/abc/attachments/1/?download'']
   \<and> rrwebAttachmentIds [\<lparr>attachment_id = ''1'', name = ''rrweb-1670000000001.json''\<rparr>,
                          \<lparr>attachment_id = ''2'', name = ''other.json''\<rparr>]
     = [\<lparr>attachment_id = ''1'', name = ''rrweb-1670000000001.json''\<rparr>]"
proof -
  let ?a1 = "\<lparr>attachment_id = ''1'', name = ''rrweb-1670000000001.json''\<rparr>"
  let ?a2 = "\<lparr>attachment_id = ''2'', name = ''other.json''\<rparr>"
  let ?api = "example_api\<lparr>attachments_endpoint := (\<lambda>url. (1, Inr [?a1, ?a2]))\<rparr>"
  have h: "snd (attachments_endpoint ?api (attachments_url example_opts)) = Inr [?a1, ?a2]"
    by simp
  have sel: "rrwebAttachmentIds [?a1, ?a2] = [?a1]"
    by code_simp
  have u1: "attachments_url example_opts = ''/projects/org/123/events/abc/attachments/''"
    by code_simp
  have u2: "download_url example_opts ?a1
      = ''/api/0/projects/org/123/events/abc/attachments/1/?download''"
    by code_simp
  from attachment_collector_selection [OF h]
  have "requests (fetchRRWebEvents ?api example_opts) =
      attachments_url example_opts # map (download_url example_opts) (rrwebAttachmentIds [?a1, ?a2])"
    by (rule conjunct1)
  with h sel u1 u2 show ?thesis by simp
qed

text \<open>
  C3 as stated (exactly the names of the form rrweb-<13 digits>.json) does not hold: the
  pattern is not anchored, and a record whose name goes on after .json is selected.
\<close>

theorem attachment_collector_counterexample:
  "rrwebAttachmentIds [\<lparr>attachment_id = ''7'', name = ''rrweb-1670000000001.json.bak''\<rparr>]
     = [\<lparr>attachment_id = ''7'', name = ''rrweb-1670000000001.json.bak''\<rparr>]
   \<and> \<not> spec_rrweb_filename ''rrweb-1670000000001.json.bak''"
proof
  show "rrwebAttachmentIds [\<lparr>attachment_id = ''7'', name = ''rrweb-1670000000001.json.bak''\<rparr>]
     = [\<lparr>attachment_id = ''7'', name = ''rrweb-1670000000001.json.bak''\<rparr>]"
    by code_simp
  show "\<not> spec_rrweb_filename ''rrweb-1670000000001.json.bak''"
    by (simp add: spec_rrweb_filename_def)
qed

section \<open>The load cycle\<close>


lemma outcome_both:
  "outcome (both first p q) =
     (case outcome p of
        Inl e1 \<Rightarrow>
          (case outcome q of
             Inl e2 \<Rightarrow>
               if settled p < settled q \<or> (settled p = settled q \<and> first e1 e2)
               then Inl e1 else Inl e2
           | Inr v2 \<Rightarrow> Inl e1)
      | Inr v1 \<Rightarrow>
          (case outcome q of
             Inl e2 \<Rightarrow> Inl e2
           | Inr v2 \<Rightarrow> Inr (v1, v2)))"
  by (cases "(first, p, q)" rule: both.cases) (simp_all add: outcome_def settled_def)

lemma settled_both_rejected:
  "settled (both first p q) =
     (case outcome p of
        Inl e1 \<Rightarrow>
          (case outcome q of
             Inl e2 \<Rightarrow> min (settled p) (settled q)
           | Inr v2 \<Rightarrow> settled p)
      | Inr v1 \<Rightarrow>
          (case outcome q of
             Inl e2 \<Rightarrow> settled q
           | Inr v2 \<Rightarrow> max (settled p) (settled q)))"
  by (cases "(first, p, q)" rule: both.cases) (auto simp: outcome_def settled_def min_def)

lemma loadEvents_settle_Inl:
  "loadEvents_settle api state (Inl error) = catch_state error"
  by (simp add: loadEvents_settle_def)

text \<open>
  C1: when a fetch branch rejects, the cycle publishes the snapshot of the handler: fetching
  false, every data field undefined, and fetchError the reason of a branch that rejected
  and that no other rejecting branch preceded.
\<close>

theorem fetch_failure_aborts_cycle:
  assumes "isl (outcome (fetchEvent api opts))
     \<or> isl (outcome (fetchRRWebEvents api opts))
     \<or> isl (outcome (fetchReplayEvents api opts))"
  shows "\<exists>error.
     published (loadEvents api opts state) =
       \<lparr>breadcrumbEntry = None, event = None, fetchError = Some error, fetching = False,
        mergedReplayEvent = None, replayEvents = None, rrwebEvents = None\<rparr>
     \<and> (outcome (fetchEvent api opts) = Inl error
          \<and> (isl (outcome (fetchRRWebEvents api opts))
               \<longrightarrow> settled (fetchEvent api opts) \<le> settled (fetchRRWebEvents api opts))
          \<and> (isl (outcome (fetchReplayEvents api opts))
               \<longrightarrow> settled (fetchEvent api opts) \<le> settled (fetchReplayEvents api opts))
        \<or> outcome (fetchRRWebEvents api opts) = Inl error
          \<and> (isl (outcome (fetchEvent api opts))
               \<longrightarrow> settled (fetchRRWebEvents api opts) \<le> settled (fetchEvent api opts))
          \<and> (isl (outcome (fetchReplayEvents api opts))
               \<longrightarrow> settled (fetchRRWebEvents api opts) \<le> settled (fetchReplayEvents api opts))
        \<or> outcome (fetchReplayEvents api opts) = Inl error
          \<and> (isl (outcome (fetchEvent api opts))
               \<longrightarrow> settled (fetchReplayEvents api opts) \<le> settled (fetchEvent api opts))
          \<and> (isl (outcome (fetchRRWebEvents api opts))
               \<longrightarrow> settled (fetchReplayEvents api opts) \<le> settled (fetchRRWebEvents api opts)))"
proof -
  let ?p1 = "fetchEvent api opts" and ?p2 = "fetchRRWebEvents api opts"
    and ?p3 = "fetchReplayEvents api opts"
  have pub: "published (loadEvents api opts state) =
      loadEvents_settle api state
        (outcome (both (rejects_first api) ?p1 (both (rejects_first api) ?p2 ?p3)))"
    by (simp add: loadEvents_def loadEvents_fetches_def)
  show ?thesis
  proof (cases "outcome ?p1")
    case l1: (Inl e1)
    show ?thesis
    proof (cases "outcome ?p2")
      case l2: (Inl e2)
      show ?thesis
      proof (cases "outcome ?p3")
        case l3: (Inl e3)
        show ?thesis
          unfolding pub
          by (auto simp: outcome_both settled_both_rejected l1 l2 l3 loadEvents_settle_Inl
              catch_state_def)
      next
        case r3: (Inr v3)
        show ?thesis
          unfolding pub
          by (auto simp: outcome_both settled_both_rejected l1 l2 r3 loadEvents_settle_Inl
              catch_state_def)
      qed
    next
      case r2: (Inr v2)
      show ?thesis
      proof (cases "outcome ?p3")
        case l3: (Inl e3)
        show ?thesis
          unfolding pub
          by (auto simp: outcome_both settled_both_rejected l1 r2 l3 loadEvents_settle_Inl
              catch_state_def)
      next
        case r3: (Inr v3)
        show ?thesis
          unfolding pub
          by (auto simp: outcome_both settled_both_rejected l1 r2 r3 loadEvents_settle_Inl
              catch_state_def)
      qed
    qed
  next
    case r1: (Inr v1)
    show ?thesis
    proof (cases "outcome ?p2")
      case l2: (Inl e2)
      show ?thesis
      proof (cases "outcome ?p3")
        case l3: (Inl e3)
        show ?thesis
          unfolding pub
          by (auto simp: outcome_both settled_both_rejected r1 l2 l3 loadEvents_settle_Inl
              catch_state_def)
      next
        case r3: (Inr v3)
        show ?thesis
          unfolding pub
          by (auto simp: outcome_both settled_both_rejected r1 l2 r3 loadEvents_settle_Inl
              catch_state_def)
      qed
    next
      case r2: (Inr v2)
      show ?thesis
      proof (cases "outcome ?p3")
        case l3: (Inl e3)
        show ?thesis
          unfolding pub
          by (auto simp: outcome_both settled_both_rejected r1 r2 l3 loadEvents_settle_Inl
              catch_state_def)
      next
        case r3: (Inr v3)
        with r1 r2 assms show ?thesis by simp
      qed
    qed
  qed
qed

theorem fetch_failure_aborts_cycle_witness:
  "isl (outcome (fetchRRWebEvents
          (example_api\<lparr>attachments_endpoint := (\<lambda>url. (1, Inl (RequestError ''500'')))\<rparr>)
          example_opts))
   \<and> published (loadEvents
          (example_api\<lparr>attachments_endpoint := (\<lambda>url. (1, Inl (RequestError ''500'')))\<rparr>)
          example_opts loading_state)
     = \<lparr>breadcrumbEntry = None, event = None, fetchError = Some (RequestError ''500''),
        fetching = False, mergedReplayEvent = None, replayEvents = None, rrwebEvents = None\<rparr>"
proof -
  let ?api = "example_api\<lparr>attachments_endpoint := (\<lambda>url. (1, Inl (RequestError ''500'')))\<rparr>"
  have o1: "\<not> isl (outcome (fetchEvent ?api example_opts))"
    by (simp add: fetchEvent_def outcome_requestPromise example_api_def)
  have o2: "outcome (fetchRRWebEvents ?api example_opts) = Inl (RequestError ''500'')"
    by (simp add: fetchRRWebEvents_def outcome_await outcome_requestPromise)
  have o3: "\<not> isl (outcome (fetchReplayEvents ?api example_opts))"
    by (simp add: fetchReplayEvents_def outcome_await outcome_def example_api_def)
  from o2 have h: "isl (outcome (fetchEvent ?api example_opts))
     \<or> isl (outcome (fetchRRWebEvents ?api example_opts))
     \<or> isl (outcome (fetchReplayEvents ?api example_opts))"
    by simp
  from fetch_failure_aborts_cycle [OF h, of loading_state] o1 o2 o3
  show ?thesis by auto
qed

lemma outcome_triple: "outcome (rs, t, r) = r"
  by (simp add: outcome_def)

lemma outcome_loadEvents_fetches_Inr:
  assumes "outcome (fetchEvent api opts) = Inr ev"
    and "outcome (fetchRRWebEvents api opts) = Inr rrweb"
    and "outcome (fetchReplayEvents api opts) = Inr related"
  shows "outcome (loadEvents_fetches api opts) = Inr (ev, rrweb, related)"
  using assms by (simp add: loadEvents_fetches_def outcome_both)

text \<open>
  C10: when the three fetches are fulfilled and some related event has no spans-tagged entry,
  the cycle still publishes a snapshot, that of the handler: fetching false, fetchError set,
  every data field undefined. The error is the one that \<open>mergeBreadcrumbsEntries\<close>
  throws if it throws, and the fault of the merge step otherwise.
\<close>

theorem merge_fault_is_caught:
  assumes "outcome (fetchEvent api opts) = Inr ev"
    and "outcome (fetchRRWebEvents api opts) = Inr rrweb"
    and "outcome (fetchReplayEvents api opts) = Inr related"
    and "\<exists>r \<in> set related. find isReplayEventEntity (entries r) = None"
  shows "\<exists>error.
     published (loadEvents api opts state) =
       \<lparr>breadcrumbEntry = None, event = None, fetchError = Some error, fetching = False,
        mergedReplayEvent = None, replayEvents = None, rrwebEvents = None\<rparr>
     \<and> (mergeBreadcrumbsEntries api related = Inl error
        \<or> \<not> isl (mergeBreadcrumbsEntries api related) \<and> loadEvents_merge related = Inl error)"
proof -
  from assms(4) have "\<not> (\<exists>merged. loadEvents_merge related = Inr merged)"
    unfolding merge_succeeds_iff by blast
  then obtain fault where fault: "loadEvents_merge related = Inl fault"
    by (cases "loadEvents_merge related") auto
  have pub: "published (loadEvents api opts state) =
      loadEvents_settle api state (Inr (ev, rrweb, related))"
    using outcome_loadEvents_fetches_Inr [OF assms(1-3)] by (simp add: loadEvents_def)
  show ?thesis
  proof (cases "mergeBreadcrumbsEntries api related")
    case (Inl e)
    then show ?thesis
      unfolding pub by (simp add: loadEvents_settle_def catch_state_def)
  next
    case (Inr crumbs)
    with fault show ?thesis
      unfolding pub by (simp add: loadEvents_settle_def catch_state_def)
  qed
qed

theorem merge_fault_is_caught_witness:
  "outcome (fetchReplayEvents
       (example_api\<lparr>eventsv2_endpoint := (\<lambda>url q. (1, Inr [JStr ''123:r1'']))\<rparr>) example_opts)
     = Inr [\<lparr>entries = [], breakdowns = None, endTimestamp = None,
              rest = [(''url'', JStr ''/organizations/org/events/123:r1/'')]\<rparr>]
   \<and> published (loadEvents
       (example_api\<lparr>eventsv2_endpoint := (\<lambda>url q. (1, Inr [JStr ''123:r1'']))\<rparr>)
       example_opts loading_state)
     = \<lparr>breadcrumbEntry = None, event = None,
        fetchError = Some (TypeError ''Cannot read properties of undefined (reading 'data')''),
        fetching = False, mergedReplayEvent = None, replayEvents = None, rrwebEvents = None\<rparr>"
proof -
  let ?api = "example_api\<lparr>eventsv2_endpoint := (\<lambda>url q. (1, Inr [JStr ''123:r1'']))\<rparr>"
  let ?r1 = "\<lparr>entries = [], breakdowns = None, endTimestamp = None,
              rest = [(''url'', JStr ''/organizations/org/events/123:r1/'')]\<rparr>"
  let ?ev = "\<lparr>entries = [], breakdowns = None, endTimestamp = None,
              rest = [(''url'', JStr ''/organizations/org/events/123:abc/'')]\<rparr>"
  have o1: "outcome (fetchEvent ?api example_opts) = Inr ?ev"
    by (simp add: fetchEvent_def outcome_requestPromise example_api_def example_opts_def)
  have o2: "outcome (fetchRRWebEvents ?api example_opts) = Inr []"
    by (simp add: fetchRRWebEvents_def outcome_await outcome_requestPromise example_api_def
        rrwebAttachmentIds_def outcome_triple)
  have o3: "outcome (fetchReplayEvents ?api example_opts) = Inr [?r1]"
    by (simp add: fetchReplayEvents_def outcome_await outcome_def requestPromise_def
        example_api_def example_opts_def)
  have h: "\<exists>r \<in> set [?r1]. find isReplayEventEntity (entries r) = None"
    by simp
  have m: "loadEvents_merge [?r1]
      = Inl (TypeError ''Cannot read properties of undefined (reading 'data')'')"
    by (simp add: loadEvents_merge_def loadEvents_spans_def replayEvent_spans_def)
  have b: "\<not> isl (mergeBreadcrumbsEntries ?api [?r1])"
    by (simp add: example_api_def)
  from merge_fault_is_caught [OF o1 o2 o3 h, of loading_state] m b o3
  show ?thesis by auto
qed

lemma split_no_separator: "sep \<notin> set s \<Longrightarrow> split sep s = [s]"
  by (induction s) auto

lemma split_at_first_separator:
  "sep \<notin> set p \<Longrightarrow> split sep (p @ sep # tail) = p # split sep tail"
  by (induction p) auto

lemma split_not_Nil: "split sep s \<noteq> []"
  by (induction s) (simp_all split: list.splits)

lemma requests_loadEvents:
  "issued (loadEvents api opts state) =
     requests (fetchEvent api opts) @ requests (fetchRRWebEvents api opts)
       @ requests (fetchReplayEvents api opts)"
  by (simp add: loadEvents_def loadEvents_fetches_def requests_both)

lemma requests_fetchEvent:
  "requests (fetchEvent api opts) =
     [''/organizations/'' @ orgId opts @ ''/events/'' @ eventSlug opts @ ''/'']"
  by (simp only: fetchEvent_def requests_requestPromise)

lemma attachments_url_requested:
  "attachments_url opts \<in> set (requests (fetchRRWebEvents api opts))"
  by (simp add: requests_fetchRRWebEvents split: sum.splits)

lemma eventsv2_url_requested:
  "''/organizations/'' @ orgId opts @ ''/eventsv2/'' \<in> set (requests (fetchReplayEvents api opts))"
proof -
  have "requests (([u], r) :: json list async) = [u]" for u r
    by (simp add: requests_def)
  then show ?thesis
    unfolding fetchReplayEvents_def requests_await
    by (simp split: sum.splits)
qed

text \<open>
  C6, as the code has it: the slug is split at its colons and not validated. For a slug
  \<open>p:e\<close>, with no colon in \<open>p\<close> and \<open>e\<close>, projectId is \<open>p\<close> and eventId is
  \<open>e\<close>, also when a colon and more text follow. For a slug without a colon, projectId is
  the whole slug and eventId is undefined. Whatever the slug, the cycle issues its requests
  for the root event, for the attachment list and to the event index.
\<close>

theorem slug_is_split_not_validated:
  "(CHR '':'' \<notin> set p \<and> CHR '':'' \<notin> set e \<longrightarrow>
      projectId (p @ CHR '':'' # e) = Some p \<and> eventId (p @ CHR '':'' # e) = Some e
      \<and> projectId (p @ CHR '':'' # e @ CHR '':'' # tail) = Some p
      \<and> eventId (p @ CHR '':'' # e @ CHR '':'' # tail) = Some e)
   \<and> (CHR '':'' \<notin> set s \<longrightarrow> projectId s = Some s \<and> eventId s = None)
   \<and> set [''/organizations/'' @ orgId opts @ ''/events/'' @ eventSlug opts @ ''/'',
           attachments_url opts,
           ''/organizations/'' @ orgId opts @ ''/eventsv2/'']
        \<subseteq> set (issued (loadEvents api opts state))"
proof (intro conjI impI)
  assume a: "CHR '':'' \<notin> set p \<and> CHR '':'' \<notin> set e"
  then have 1: "split CHR '':'' (p @ CHR '':'' # e) = [p, e]"
    by (simp add: split_at_first_separator split_no_separator)
  from a have "split CHR '':'' (p @ CHR '':'' # e @ CHR '':'' # tail) = p # e # split CHR '':'' tail"
    by (simp add: split_at_first_separator)
  then have 2: "element (split CHR '':'' (p @ CHR '':'' # e @ CHR '':'' # tail)) 0 = Some p"
    "element (split CHR '':'' (p @ CHR '':'' # e @ CHR '':'' # tail)) 1 = Some e"
    by (simp_all add: element_def)
  from 1 show "projectId (p @ CHR '':'' # e) = Some p" "eventId (p @ CHR '':'' # e) = Some e"
    by (simp_all add: projectId_def eventId_def element_def)
  from 2 show "projectId (p @ CHR '':'' # e @ CHR '':'' # tail) = Some p"
    "eventId (p @ CHR '':'' # e @ CHR '':'' # tail) = Some e"
    by (simp_all only: projectId_def eventId_def)
next
  assume "CHR '':'' \<notin> set s"
  then have "split CHR '':'' s = [s]" by (rule split_no_separator)
  then show "projectId s = Some s" "eventId s = None"
    by (simp_all add: projectId_def eventId_def element_def)
next
  show "set [''/organizations/'' @ orgId opts @ ''/events/'' @ eventSlug opts @ ''/'',
           attachments_url opts,
           ''/organizations/'' @ orgId opts @ ''/eventsv2/'']
        \<subseteq> set (issued (loadEvents api opts state))"
    using attachments_url_requested [of opts api] eventsv2_url_requested [of opts api]
    by (simp add: requests_loadEvents requests_fetchEvent)
qed

theorem slug_is_split_not_validated_witness:
  "projectId ''123:abc'' = Some ''123'' \<and> eventId ''123:abc'' = Some ''abc''
   \<and> projectId ''abc'' = Some ''abc'' \<and> eventId ''abc'' = None
   \<and> ''/projects/org/abc/events/undefined/attachments/''
       \<in> set (issued (loadEvents example_api
                  \<lparr>eventSlug = ''abc'', location = JNull, orgId = ''org''\<rparr> loading_state))"
proof -
  let ?opts = "\<lparr>eventSlug = ''abc'', location = JNull, orgId = ''org''\<rparr>"
  have c: "CHR '':'' \<notin> set ''123'' \<and> CHR '':'' \<notin> set ''abc''" by simp
  have u: "attachments_url ?opts = ''/projects/org/abc/events/undefined/attachments/''"
    by code_simp
  from slug_is_split_not_validated
    [of "''123''" "''abc''" "[]" "''abc''" ?opts example_api loading_state] c u
  show ?thesis by simp
qed

text \<open>
  C6 as stated (a malformed slug fails before any network call) does not hold: for the slug
  \<open>abc\<close> the cycle issues its requests, with the text undefined for the eventId, and on
  this network it publishes a snapshot without an error.
\<close>

theorem malformed_slug_counterexample:
  "issued (loadEvents example_api
             \<lparr>eventSlug = ''abc'', location = JNull, orgId = ''org''\<rparr> loading_state)
     = [''/organizations/org/events/abc/'',
        ''/projects/org/abc/events/undefined/attachments/'',
        ''/organizations/org/eventsv2/'']
   \<and> fetchError (published (loadEvents example_api
             \<lparr>eventSlug = ''abc'', location = JNull, orgId = ''org''\<rparr> loading_state))
     = None"
  by code_simp

section \<open>Re-invocation of the hook\<close>

lemma useReplayEvent_result_slot: "useReplayEvent_result h = slot h"
  by (simp add: useReplayEvent_result_def)

text \<open>
  C9, as the code has it: no completion is guarded. When the hook is invoked again with a
  changed organisation or slug, a cycle already in flight stays in flight, and when it
  completes afterwards its snapshot is published as the current snapshot of the hook, whose
  dependencies are by then those of the later invocation. This is so when it completes
  right after the later invocation, and also when the cycle of the later invocation has
  completed in between.
\<close>

theorem stale_cycle_is_published:
  assumes "deps h \<noteq> Some (orgId opts, eventSlug opts)"
    and "i < length (in_flight h)"
  shows "in_flight (step api h (Invoke opts)) ! i = in_flight h ! i
     \<and> useReplayEvent_result (step api (step api h (Invoke opts)) (Complete i)) = in_flight h ! i
     \<and> deps (step api (step api h (Invoke opts)) (Complete i)) = Some (orgId opts, eventSlug opts)
     \<and> useReplayEvent_result
         (step api (step api (step api h (Invoke opts)) (Complete (length (in_flight h))))
            (Complete i))
       = in_flight h ! i"
  using assms by (simp add: useReplayEvent_result_slot nth_append)

theorem stale_cycle_is_published_witness:
  "deps (run example_api [Invoke \<lparr>eventSlug = ''1:a'', location = JNull, orgId = ''org''\<rparr>])
     \<noteq> Some (orgId example_opts, eventSlug example_opts)
   \<and> 0 < length (in_flight
         (run example_api [Invoke \<lparr>eventSlug = ''1:a'', location = JNull, orgId = ''org''\<rparr>]))
   \<and> event (useReplayEvent_result
         (run example_api [Invoke \<lparr>eventSlug = ''1:a'', location = JNull, orgId = ''org''\<rparr>,
                           Invoke example_opts, Complete 0]))
     = Some \<lparr>entries = [], breakdowns = None, endTimestamp = None,
             rest = [(''url'', JStr ''/organizations/org/events/1:a/'')]\<rparr>
   \<and> deps (run example_api [Invoke \<lparr>eventSlug = ''1:a'', location = JNull, orgId = ''org''\<rparr>,
                           Invoke example_opts, Complete 0])
     = Some (''org'', ''123:abc'')"
proof -
  let ?o1 = "\<lparr>eventSlug = ''1:a'', location = JNull, orgId = ''org''\<rparr>"
  let ?h = "run example_api [Invoke ?o1]"
  have d: "deps ?h \<noteq> Some (orgId example_opts, eventSlug example_opts)"
    by code_simp
  have l: "0 < length (in_flight ?h)"
    by code_simp
  have f: "event (in_flight ?h ! 0)
      = Some \<lparr>entries = [], breakdowns = None, endTimestamp = None,
              rest = [(''url'', JStr ''/organizations/org/events/1:a/'')]\<rparr>"
    by code_simp
  have r: "run example_api [Invoke ?o1, Invoke example_opts, Complete 0]
      = step example_api (step example_api ?h (Invoke example_opts)) (Complete 0)"
    by (simp add: run_def)
  have o: "Some (orgId example_opts, eventSlug example_opts) = Some (''org'', ''123:abc'')"
    by (simp add: example_opts_def)
  note t = stale_cycle_is_published [OF d l, of example_api]
  from t have t2: "useReplayEvent_result
      (step example_api (step example_api ?h (Invoke example_opts)) (Complete 0))
      = in_flight ?h ! 0"
    by (rule conjunct1 [OF conjunct2])
  from t have t3: "deps (step example_api (step example_api ?h (Invoke example_opts)) (Complete 0))
      = Some (orgId example_opts, eventSlug example_opts)"
    by (rule conjunct1 [OF conjunct2 [OF conjunct2]])
  show ?thesis
    using d l unfolding r t2 t3 f o by simp
qed

text \<open>
  C9 as stated (the results of the prior cycle are never published) does not hold: the hook
  is invoked for the slug \<open>1:a\<close>, then for \<open>2:b\<close>; the cycle for \<open>2:b\<close> completes,
  then the one for \<open>1:a\<close>. The hook then returns the root event of \<open>1:a\<close>, while its
  dependencies are those of \<open>2:b\<close>.
\<close>

theorem stale_cycle_counterexample:
  "event (useReplayEvent_result
       (run example_api
          [Invoke \<lparr>eventSlug = ''1:a'', location = JNull, orgId = ''org''\<rparr>,
           Invoke \<lparr>eventSlug = ''2:b'', location = JNull, orgId = ''org''\<rparr>,
           Complete 1,
           Complete 0]))
     = Some \<lparr>entries = [], breakdowns = None, endTimestamp = None,
             rest = [(''url'', JStr ''/organizations/org/events/1:a/'')]\<rparr>
   \<and> deps (run example_api
          [Invoke \<lparr>eventSlug = ''1:a'', location = JNull, orgId = ''org''\<rparr>,
           Invoke \<lparr>eventSlug = ''2:b'', location = JNull, orgId = ''org''\<rparr>,
           Complete 1,
           Complete 0])
     = Some (''org'', ''2:b'')"
  by code_simp

end
